theory Spec2Isabelle
  imports Complex_Main
begin

section \<open>lab3: all-pairs segment intersections and their visualisation\<close>

subsection \<open>Points, segments, results\<close>

text \<open>
  The script hands the coordinates it reads to the geometry library, whose points hold
  exact rational coordinates (it converts the floats it is given into rationals before
  any arithmetic). Coordinates are therefore \<open>rat\<close>.
\<close>

datatype point = Point (px: rat) (py: rat)

datatype segment = Segment (endA: point) (endB: point)

datatype IntersectionResult = PointResult point | Overlap segment

datatype error = MalformedInputError | IndexOutOfRange | NumericDegeneracy

subsection \<open>sympy\_intersections.py: building the segment list\<close>

text \<open>
  \<^verbatim>\<open>
  segments = np.loadtxt("../data/s_1000_10.dat")
  \<close>
  The data file is a table of numbers with four columns, one segment per line. What
  \<^verbatim>\<open>np.loadtxt\<close> returns depends on the number of lines, because it drops every
  axis of length one: a two-dimensional array of rows when the file has two lines or
  more, a one-dimensional array of the four numbers when it has exactly one line, and
  an empty one-dimensional array when it has none. \<open>loadtxt\<close> is that behaviour of the
  numerical library on a four-column file.
\<close>

type_synonym row = "rat \<times> rat \<times> rat \<times> rat"

datatype ndarray = Array1 "rat list" | Array2 "row list"

fun loadtxt :: "row list \<Rightarrow> ndarray" where
  "loadtxt [] = Array1 []"
| "loadtxt [(x1, y1, x2, y2)] = Array1 [x1, y1, x2, y2]"
| "loadtxt (r # r' # rows) = Array2 (r # r' # rows)"

text \<open>
  The exceptions that can end the loading loop: Python's \<^verbatim>\<open>IndexError\<close>, and
  whatever the segment constructor raises.
\<close>

datatype 'e exn = IndexError | Raised 'e

text \<open>
  \<^verbatim>\<open>
  for segment in segments:
      s.append(Segment(Point(segment[:2]),Point(segment[2:])))
  \<close>
  Over a two-dimensional array \<^verbatim>\<open>segment\<close> is a row: \<^verbatim>\<open>segment[:2]\<close> is its
  first two numbers and \<^verbatim>\<open>segment[2:]\<close> the last two. The loop has no check and no
  \<^verbatim>\<open>raise\<close> of its own; there an exception can only come out of the constructor
  call, and it ends the script. The constructor is the library's: the loop is modelled
  for any constructor \<open>mk\<close> that returns an entity or raises.
\<close>

fun load_loop ::
  "(point \<Rightarrow> point \<Rightarrow> 'e + 'seg) \<Rightarrow> row list \<Rightarrow> 'seg list \<Rightarrow> 'e exn + 'seg list" where
  "load_loop mk [] s = Inr s"
| "load_loop mk ((x1, y1, x2, y2) # segments) s =
     (case mk (Point x1 y1) (Point x2 y2) of
        Inl e \<Rightarrow> Inl (Raised e)
      | Inr g \<Rightarrow> load_loop mk segments (s @ [g]))"

text \<open>
  Over a one-dimensional array \<^verbatim>\<open>segment\<close> is a number, not a row, and
  \<^verbatim>\<open>segment[:2]\<close> raises \<^verbatim>\<open>IndexError\<close> in the first iteration, before any
  constructor call. Over an empty array the body never runs.
\<close>

fun load :: "(point \<Rightarrow> point \<Rightarrow> 'e + 'seg) \<Rightarrow> ndarray \<Rightarrow> 'e exn + 'seg list" where
  "load mk (Array2 segments) = load_loop mk segments []"
| "load mk (Array1 []) = Inr []"
| "load mk (Array1 (x # xs)) = Inl IndexError"

text \<open>The constructor call of one iteration, on the row it is given.\<close>

definition build :: "(point \<Rightarrow> point \<Rightarrow> 'e + 'seg) \<Rightarrow> row \<Rightarrow> 'e + 'seg" where
  "build mk r = (case r of (x1, y1, x2, y2) \<Rightarrow> mk (Point x1 y1) (Point x2 y2))"

text \<open>
  Row \<open>k\<close> is the first on which the constructor raises, and it raises \<open>e\<close> there.
\<close>

definition first_failure :: "(point \<Rightarrow> point \<Rightarrow> 'e + 'seg) \<Rightarrow> row list \<Rightarrow> nat \<Rightarrow> 'e \<Rightarrow> bool" where
  "first_failure mk rows k e \<longleftrightarrow>
     k < length rows \<and> build mk (rows ! k) = Inl e
     \<and> (\<forall>j<k. \<exists>g. build mk (rows ! j) = Inr g)"

text \<open>
  What the library's \<^verbatim>\<open>Segment(p1, p2)\<close> returns on two-dimensional points: a
  segment, or, when the two points are equal, the point itself. It does not raise.
\<close>

datatype entity = PointEntity point | SegmentEntity segment

definition sympy_Segment :: "point \<Rightarrow> point \<Rightarrow> error + entity" where
  "sympy_Segment p1 p2 =
     (if p1 = p2 then Inr (PointEntity p1) else Inr (SegmentEntity (Segment p1 p2)))"

subsection \<open>sympy\_intersections.py: the enumeration loop\<close>

text \<open>
  The script keeps two module-level lists: \<^verbatim>\<open>s\<close>, the segments built from the
  rows of the data file, and \<^verbatim>\<open>i\<close>, the intersections found so far. Both are
  fields of the state below (\<open>store\<close> is \<^verbatim>\<open>s\<close>, \<open>found\<close> is \<^verbatim>\<open>i\<close>).
  \<open>printed\<close> is what the two \<^verbatim>\<open>print\<close> calls at the end of each outer
  iteration write: the index and \<^verbatim>\<open>len(i)\<close>.
  \<open>tested\<close> is not a variable of the script: it logs the index pair of every
  call of \<^verbatim>\<open>segment.intersection(value)\<close>, in call order, so that statements
  about which pairs are tested can be made. No branch reads it.

  \<^verbatim>\<open>segment.intersection\<close> is the geometry library's method. It returns a Python
  list of geometric entities, empty when the two do not meet; \<^verbatim>\<open>if p:\<close> tests
  that list for non-emptiness and \<^verbatim>\<open>i.append(p)\<close> appends the list itself.
  The loop is modelled for any such method: the parameter \<open>isect\<close>.
\<close>

record ('seg, 'g) state =
  store :: "'seg list"
  found :: "'g list list"
  tested :: "(nat \<times> nat) list"
  printed :: "(nat \<times> nat) list"

text \<open>
  \<^verbatim>\<open>
  for j, value in enumerate(s):
      if j <= index:
          continue
      p = segment.intersection(value)
      if p:
          i.append(p)
  \<close>
\<close>

fun inner_loop ::
  "('seg \<Rightarrow> 'seg \<Rightarrow> 'g list) \<Rightarrow> nat \<Rightarrow> 'seg \<Rightarrow> (nat \<times> 'seg) list
    \<Rightarrow> ('seg, 'g) state \<Rightarrow> ('seg, 'g) state" where
  "inner_loop isect index segment [] st = st"
| "inner_loop isect index segment ((j, val) # rest) st =
     (if j \<le> index then inner_loop isect index segment rest st
      else
        let p = isect segment val;
            st1 = st\<lparr>tested := tested st @ [(index, j)]\<rparr>
        in if p \<noteq> []
           then inner_loop isect index segment rest (st1\<lparr>found := found st1 @ [p]\<rparr>)
           else inner_loop isect index segment rest st1)"

text \<open>
  \<^verbatim>\<open>
  for index,segment in enumerate(s):
      <inner loop>
      print(index)
      print("Intersections: ", len(i))
  \<close>
\<close>

fun outer_loop ::
  "('seg \<Rightarrow> 'seg \<Rightarrow> 'g list) \<Rightarrow> (nat \<times> 'seg) list
    \<Rightarrow> ('seg, 'g) state \<Rightarrow> ('seg, 'g) state" where
  "outer_loop isect [] st = st"
| "outer_loop isect ((index, segment) # rest) st =
     (let st1 = inner_loop isect index segment (enumerate 0 (store st)) st;
          st2 = st1\<lparr>printed := printed st1 @ [(index, length (found st1))]\<rparr>
      in outer_loop isect rest st2)"

text \<open>The state after lines 6 to 12: \<^verbatim>\<open>s\<close> loaded, \<^verbatim>\<open>i = []\<close>.\<close>

definition init :: "'seg list \<Rightarrow> ('seg, 'g) state" where
  "init s = \<lparr>store = s, found = [], tested = [], printed = []\<rparr>"

text \<open>One full pass: the outer loop over \<^verbatim>\<open>enumerate(s)\<close> of the state's store.\<close>

definition engine :: "('seg \<Rightarrow> 'seg \<Rightarrow> 'g list) \<Rightarrow> ('seg, 'g) state \<Rightarrow> ('seg, 'g) state" where
  "engine isect st = outer_loop isect (enumerate 0 (store st)) st"

definition run :: "('seg \<Rightarrow> 'seg \<Rightarrow> 'g list) \<Rightarrow> 'seg list \<Rightarrow> ('seg, 'g) state" where
  "run isect s = engine isect (init s)"

text \<open>The pairs \<open>(i, j)\<close> with \<open>i < j < n\<close>, by increasing \<open>i\<close>, then increasing \<open>j\<close>.\<close>

definition pairs_from :: "nat \<Rightarrow> nat \<Rightarrow> (nat \<times> nat) list" where
  "pairs_from k n = concat (map (\<lambda>a. map (Pair a) [Suc a..<n]) [k..<n])"

definition result_at :: "('seg \<Rightarrow> 'seg \<Rightarrow> 'g list) \<Rightarrow> 'seg list \<Rightarrow> nat \<times> nat \<Rightarrow> 'g list" where
  "result_at isect s ij = isect (s ! fst ij) (s ! snd ij)"

definition pair_less :: "nat \<times> nat \<Rightarrow> nat \<times> nat \<Rightarrow> bool" where
  "pair_less p q = (fst p < fst q \<or> (fst p = fst q \<and> snd p < snd q))"

text \<open>
  The whole script on the lines of the data file: read them, build \<^verbatim>\<open>s\<close>, then
  run the loops. The two \<^verbatim>\<open>print\<close> calls that end it write \<open>found\<close> and its
  length.
\<close>

definition sympy_intersections ::
  "(point \<Rightarrow> point \<Rightarrow> 'e + 'seg) \<Rightarrow> ('seg \<Rightarrow> 'seg \<Rightarrow> 'g list) \<Rightarrow> row list
    \<Rightarrow> 'e exn + ('seg, 'g) state" where
  "sympy_intersections mk isect file_rows =
     (case load mk (loadtxt file_rows) of
        Inl e \<Rightarrow> Inl e
      | Inr s \<Rightarrow> Inr (run isect s))"

subsection \<open>The intersection predicate\<close>

text \<open>
  The body of \<^verbatim>\<open>segment.intersection\<close> belongs to the geometry library and is
  not part of the script. The definitions of this subsection follow section 4.2 of the
  specification instead. Every operation in them is exact rational arithmetic: that is
  the value a floating-point evaluation has wherever each intermediate result is
  representable, as it is for the small integer coordinates at which the definitions
  are evaluated below, and nothing is stated from them about inputs on which rounding
  would occur.
\<close>

text \<open>
  Modelled from the spec: the cross product inside \<open>orient(P,Q,R)\<close>, whose code is
  missing: \<open>(Q.x-P.x)*(R.y-P.y) - (Q.y-P.y)*(R.x-P.x)\<close>.
\<close>

definition cross :: "point \<Rightarrow> point \<Rightarrow> point \<Rightarrow> rat" where
  "cross P Q R = (px Q - px P) * (py R - py P) - (py Q - py P) * (px R - px P)"

text \<open>
  Modelled from the spec: the orientation value \<open>orient(P,Q,R)\<close>, whose code is
  missing: the sign of the cross product (step 1).
\<close>

definition orient :: "point \<Rightarrow> point \<Rightarrow> point \<Rightarrow> rat" where
  "orient P Q R = sgn (cross P Q R)"

text \<open>
  Modelled from the spec: the determinant of the 2x2 linear system of step 2, whose code
  is missing. The system is \<open>A + t (B - A) = C + u (D - C)\<close>, the two segments'
  parametric forms.
\<close>

definition determinant :: "point \<Rightarrow> point \<Rightarrow> point \<Rightarrow> point \<Rightarrow> rat" where
  "determinant A B C D = (px B - px A) * (py D - py C) - (py B - py A) * (px D - px C)"

text \<open>
  Modelled from the spec: the crossing-point solve of step 2, whose code is missing. It
  fails with \<open>NumericDegeneracy\<close> when the determinant is within \<open>eps\<close> (the
  machine epsilon, a parameter) of zero, and otherwise returns the point at parameter
  \<open>t\<close> on the first segment. The quotient and the point are exact; in floating-point
  arithmetic they are rounded, and the rounded point depends on which segment is taken
  first.
\<close>

definition solve_crossing ::
  "rat \<Rightarrow> point \<Rightarrow> point \<Rightarrow> point \<Rightarrow> point \<Rightarrow> error + point" where
  "solve_crossing eps A B C D =
     (let det = determinant A B C D in
      if \<bar>det\<bar> \<le> eps then Inl NumericDegeneracy
      else
        let t = ((px C - px A) * (py D - py C) - (py C - py A) * (px D - px C)) / det
        in Inr (Point (px A + t * (px B - px A)) (py A + t * (py B - py A))))"

text \<open>
  Modelled from the spec: the choice of the projection axis in step 3, whose code is
  missing: the axis along which the first segment has the greater extent, the x axis on
  a tie.
\<close>

definition axis :: "segment \<Rightarrow> point \<Rightarrow> rat" where
  "axis S =
     (if \<bar>py (endB S) - py (endA S)\<bar> \<le> \<bar>px (endB S) - px (endA S)\<bar> then px else py)"

text \<open>
  Modelled from the spec: the two ends of a segment's projection in step 3, whose code
  is missing: the endpoint with the smaller and the one with the larger projected
  coordinate.
\<close>

definition lower_end :: "(point \<Rightarrow> rat) \<Rightarrow> segment \<Rightarrow> point" where
  "lower_end proj S = (if proj (endA S) \<le> proj (endB S) then endA S else endB S)"

definition upper_end :: "(point \<Rightarrow> rat) \<Rightarrow> segment \<Rightarrow> point" where
  "upper_end proj S = (if proj (endA S) \<le> proj (endB S) then endB S else endA S)"

text \<open>
  Modelled from the spec: the collinear case (step 3), whose code is missing. The
  overlap interval of the two projections runs from the larger of the two lower ends
  to the smaller of the two upper ends: empty gives no result, a single shared
  coordinate a \<open>Point\<close> result there, positive length an \<open>Overlap\<close> carrying the
  sub-segment that spans the interval.
\<close>

definition collinear_overlap :: "segment \<Rightarrow> segment \<Rightarrow> IntersectionResult option" where
  "collinear_overlap S1 S2 =
     (let proj = axis S1;
          lo1 = lower_end proj S1; lo2 = lower_end proj S2;
          hi1 = upper_end proj S1; hi2 = upper_end proj S2;
          lo = (if proj lo2 \<le> proj lo1 then lo1 else lo2);
          hi = (if proj hi1 \<le> proj hi2 then hi1 else hi2)
      in if proj hi < proj lo then None
         else if proj lo = proj hi then Some (PointResult lo)
         else Some (Overlap (Segment lo hi)))"

text \<open>
  Modelled from the spec: the case analysis of the geometric predicate (steps 1 to 4),
  whose code is missing, with the failure of the solve still visible. A crossing is
  tested by the orientation signs differing on both sides, zero being a valid straddle
  boundary (step 4); the collinear case is all four orientation values zero; anything
  else is no intersection.
\<close>

definition classify :: "rat \<Rightarrow> segment \<Rightarrow> segment \<Rightarrow> error + IntersectionResult option" where
  "classify eps S1 S2 =
     (let A = endA S1; B = endB S1; C = endA S2; D = endB S2;
          o1 = orient A B C; o2 = orient A B D;
          o3 = orient C D A; o4 = orient C D B
      in if o1 \<noteq> o2 \<and> o3 \<noteq> o4 then
           (case solve_crossing eps A B C D of
              Inl e \<Rightarrow> Inl e
            | Inr P \<Rightarrow> Inr (Some (PointResult P)))
         else if o1 = 0 \<and> o2 = 0 \<and> o3 = 0 \<and> o4 = 0 then Inr (collinear_overlap S1 S2)
         else Inr None)"

text \<open>
  Modelled from the spec: the predicate as its caller sees it, whose code is missing: a
  failed solve is reported as no intersection.
\<close>

definition predicate :: "rat \<Rightarrow> segment \<Rightarrow> segment \<Rightarrow> IntersectionResult option" where
  "predicate eps S1 S2 =
     (case classify eps S1 S2 of
        Inl e \<Rightarrow> None
      | Inr r \<Rightarrow> r)"

text \<open>
  Modelled from the spec: the predicate in the shape the loop calls it, whose code is
  missing: a list, empty for no intersection.
\<close>

definition segment_intersection :: "rat \<Rightarrow> segment \<Rightarrow> segment \<Rightarrow> IntersectionResult list" where
  "segment_intersection eps S1 S2 =
     (case predicate eps S1 S2 of
        None \<Rightarrow> []
      | Some r \<Rightarrow> [r])"

subsection \<open>visualize.py: the command line\<close>

text \<open>
  \<^verbatim>\<open>
  segments_path = "../data/s_1000_10.dat"
  intersections_path = "../data/s_1000_10_intersections.dat"
  use_library = True
  \<close>
\<close>

record config =
  segments_path :: string
  intersections_path :: string
  use_library :: bool

definition defaults :: config where
  "defaults =
     \<lparr>segments_path = ''../data/s_1000_10.dat'',
      intersections_path = ''../data/s_1000_10_intersections.dat'',
      use_library = True\<rparr>"

text \<open>
  \<^verbatim>\<open>
  if len(sys.argv) == 2:
      segments_path = sys.argv[1]
  elif len(sys.argv) == 3:
      use_library = False
      segments_path = sys.argv[1]
      intersections_path = sys.argv[2]
  elif len(sys.argv) > 3:
      raise Exception("To many input arguments!")
  \<close>
  \<open>argv\<close> is \<^verbatim>\<open>sys.argv\<close>: the script's name first, then the user's
  arguments. The exception is \<open>Inl\<close> of its message.
\<close>

definition parse_argv :: "string list \<Rightarrow> string + config" where
  "parse_argv argv =
     (if length argv = 2 then Inr (defaults\<lparr>segments_path := argv ! 1\<rparr>)
      else if length argv = 3 then
        Inr (defaults\<lparr>use_library := False, segments_path := argv ! 1,
               intersections_path := argv ! 2\<rparr>)
      else if length argv > 3 then Inl ''To many input arguments!''
      else Inr defaults)"

text \<open>
  \<^verbatim>\<open>
  if use_library:
      intersections = np.array([[i.x,i.y] for i in bentley_ottman(segments)])
  else:
      intersections = np.loadtxt(intersections_path)
  \<close>
  Where the plotted intersections come from: the library's sweep over the segments
  read from \<^verbatim>\<open>segments_path\<close>, or the file at \<^verbatim>\<open>intersections_path\<close>.
\<close>

datatype intersections_source = BentleyOttman string | LoadTxt string

definition intersections_from :: "config \<Rightarrow> intersections_source" where
  "intersections_from c =
     (if use_library c then BentleyOttman (segments_path c) else LoadTxt (intersections_path c))"

definition visualize :: "string list \<Rightarrow> string + intersections_source" where
  "visualize argv =
     (case parse_argv argv of
        Inl msg \<Rightarrow> Inl msg
      | Inr c \<Rightarrow> Inr (intersections_from c))"

subsection \<open>What the loops compute\<close>

lemma inner_loop_store [simp]:
  "store (inner_loop isect index segment es st) = store st"
  by (induction isect index segment es st rule: inner_loop.induct) (simp_all add: Let_def)

lemma inner_loop_printed [simp]:
  "printed (inner_loop isect index segment es st) = printed st"
  by (induction isect index segment es st rule: inner_loop.induct) (simp_all add: Let_def)

lemma inner_loop_tested:
  "tested (inner_loop isect index segment es st) =
     tested st @ map (\<lambda>e. (index, fst e)) (filter (\<lambda>e. index < fst e) es)"
  by (induction isect index segment es st rule: inner_loop.induct) (simp_all add: Let_def)

lemma inner_loop_found:
  "found (inner_loop isect index segment es st) =
     found st @ filter (\<lambda>p. p \<noteq> [])
       (map (\<lambda>e. isect segment (snd e)) (filter (\<lambda>e. index < fst e) es))"
  by (induction isect index segment es st rule: inner_loop.induct) (simp_all add: Let_def)

lemma outer_loop_store [simp]:
  "store (outer_loop isect es st) = store st"
  by (induction isect es st rule: outer_loop.induct) (simp_all add: Let_def)

lemma outer_loop_tested:
  "tested (outer_loop isect es st) =
     tested st @ concat (map (\<lambda>e. map (\<lambda>d. (fst e, fst d))
        (filter (\<lambda>d. fst e < fst d) (enumerate 0 (store st)))) es)"
  by (induction isect es st rule: outer_loop.induct) (simp_all add: Let_def inner_loop_tested)

lemma outer_loop_found:
  "found (outer_loop isect es st) =
     found st @ concat (map (\<lambda>e. filter (\<lambda>p. p \<noteq> [])
        (map (\<lambda>d. isect (snd e) (snd d))
          (filter (\<lambda>d. fst e < fst d) (enumerate 0 (store st))))) es)"
  by (induction isect es st rule: outer_loop.induct) (simp_all add: Let_def inner_loop_found)

lemma filter_upt_less: "filter (\<lambda>j. a < j) [0..<n] = [Suc a..<n]"
proof (induction n)
  case 0
  then show ?case by simp
next
  case (Suc n)
  then show ?case by (cases "a < n") (auto simp: not_less)
qed

lemma enumerate_nth: "enumerate 0 s = map (\<lambda>j. (j, s ! j)) [0..<length s]"
  by (rule nth_equalityI) (simp_all add: nth_enumerate_eq)

lemma filter_enumerate_less:
  "filter (\<lambda>d. a < fst d) (enumerate 0 s) = map (\<lambda>j. (j, s ! j)) [Suc a..<length s]"
  unfolding enumerate_nth by (simp add: filter_map o_def filter_upt_less)

lemma run_store: "store (run isect s) = s"
  by (simp add: run_def engine_def init_def)

lemma run_tested: "tested (run isect s) = pairs_from 0 (length s)"
proof -
  have "tested (run isect s) = concat (map (\<lambda>e. map (\<lambda>d. (fst e, fst d))
        (filter (\<lambda>d. fst e < fst d) (enumerate 0 s))) (enumerate 0 s))"
    by (simp add: run_def engine_def init_def outer_loop_tested)
  also have "\<dots> =
      concat (map (\<lambda>e. map (Pair (fst e)) [Suc (fst e)..<length s]) (enumerate 0 s))"
    by (simp add: filter_enumerate_less o_def)
  also have "\<dots> = pairs_from 0 (length s)"
    unfolding enumerate_nth pairs_from_def by (simp add: o_def)
  finally show ?thesis .
qed

lemma run_found:
  "found (run isect s) =
     filter (\<lambda>p. p \<noteq> []) (map (result_at isect s) (pairs_from 0 (length s)))"
proof -
  have "found (run isect s) = concat (map (\<lambda>e. filter (\<lambda>p. p \<noteq> [])
        (map (\<lambda>d. isect (snd e) (snd d))
          (filter (\<lambda>d. fst e < fst d) (enumerate 0 s)))) (enumerate 0 s))"
    by (simp add: run_def engine_def init_def outer_loop_found)
  also have "\<dots> = concat (map (\<lambda>e. filter (\<lambda>p. p \<noteq> [])
        (map (\<lambda>j. isect (snd e) (s ! j)) [Suc (fst e)..<length s])) (enumerate 0 s))"
    by (simp add: filter_enumerate_less o_def)
  also have "\<dots> =
      filter (\<lambda>p. p \<noteq> []) (map (result_at isect s) (pairs_from 0 (length s)))"
    unfolding enumerate_nth pairs_from_def
    by (simp add: o_def filter_concat map_concat result_at_def)
  finally show ?thesis .
qed

subsection \<open>The list of index pairs\<close>

lemma pairs_from_rec:
  "k < n \<Longrightarrow> pairs_from k n = map (Pair k) [Suc k..<n] @ pairs_from (Suc k) n"
  by (simp add: pairs_from_def upt_conv_Cons)

lemma pairs_from_Nil: "n \<le> k \<Longrightarrow> pairs_from k n = []"
  by (simp add: pairs_from_def)

lemma set_pairs_from: "set (pairs_from k n) = {(a, b). k \<le> a \<and> a < b \<and> b < n}"
  by (fastforce simp: pairs_from_def)

lemma half_step: "m + m * (m - 1) div 2 = Suc m * m div (2::nat)"
proof (cases m)
  case 0
  then show ?thesis by simp
next
  case (Suc d)
  have "Suc d + Suc d * d div 2 = (2 * Suc d + Suc d * d) div 2" by simp
  also have "2 * Suc d + Suc d * d = Suc (Suc d) * Suc d" by simp
  finally show ?thesis using Suc by simp
qed

lemma length_pairs_from: "length (pairs_from k n) = (n - k) * (n - k - 1) div 2"
proof (induction "n - k" arbitrary: k)
  case 0
  then show ?case by (simp add: pairs_from_Nil)
next
  case (Suc d)
  then have kn: "k < n" and d: "d = n - Suc k" by auto
  have "length (pairs_from k n) = (n - Suc k) + length (pairs_from (Suc k) n)"
    using kn by (simp add: pairs_from_rec)
  also have "\<dots> = d + d * (d - 1) div 2"
    using Suc.hyps(1) [OF d] d by simp
  also have "\<dots> = Suc d * d div 2" by (rule half_step)
  finally show ?case using Suc.hyps(2) [symmetric] by simp
qed

lemma sorted_pairs_from: "sorted_wrt pair_less (pairs_from k n)"
proof (induction "n - k" arbitrary: k)
  case 0
  then show ?case by (simp add: pairs_from_Nil)
next
  case (Suc d)
  then have kn: "k < n" and d: "d = n - Suc k" by auto
  have 1: "sorted_wrt pair_less (map (Pair k) [Suc k..<n])"
    by (simp add: sorted_wrt_map pair_less_def sorted_wrt_upt)
  have 2: "sorted_wrt pair_less (pairs_from (Suc k) n)"
    by (rule Suc.hyps(1) [OF d])
  show ?case
    using kn 1 2 by (auto simp: pairs_from_rec sorted_wrt_append set_pairs_from pair_less_def)
qed

lemma distinct_pairs_from: "distinct (pairs_from k n)"
proof -
  have "sorted_wrt (\<lambda>p q. p \<noteq> q) (pairs_from k n)"
    by (rule sorted_wrt_mono_rel [OF _ sorted_pairs_from]) (auto simp: pair_less_def)
  then show ?thesis
    by (simp add: distinct_conv_nth sorted_wrt_iff_nth_less) (metis nat_neq_iff)
qed

subsection \<open>The enumeration\<close>

lemma run_found_tested:
  "found (run isect s) =
     map (result_at isect s)
       (filter (\<lambda>ij. result_at isect s ij \<noteq> []) (tested (run isect s)))"
  by (simp add: run_found run_tested filter_map o_def)

text \<open>
  C3. The loops call the predicate on exactly the index pairs \<open>(a, b)\<close> with
  \<open>a < b < N\<close>, each once, that is \<open>N (N - 1) / 2\<close> calls, in increasing
  lexicographic order; and \<^verbatim>\<open>i\<close> holds the non-empty results in the order of the
  calls that produced them.
\<close>

theorem enumeration_tests_each_pair_once_in_order:
  "set (tested (run isect s)) = {(a, b). a < b \<and> b < length s}
   \<and> distinct (tested (run isect s))
   \<and> length (tested (run isect s)) = length s * (length s - 1) div 2
   \<and> sorted_wrt pair_less (tested (run isect s))
   \<and> found (run isect s) =
       map (result_at isect s)
         (filter (\<lambda>ij. result_at isect s ij \<noteq> []) (tested (run isect s)))"
proof -
  have "set (tested (run isect s)) = {(a, b). a < b \<and> b < length s}"
    by (simp add: run_tested set_pairs_from)
  moreover have "distinct (tested (run isect s))"
    by (simp add: run_tested distinct_pairs_from)
  moreover have "length (tested (run isect s)) = length s * (length s - 1) div 2"
    by (simp add: run_tested length_pairs_from)
  moreover have "sorted_wrt pair_less (tested (run isect s))"
    by (simp add: run_tested sorted_pairs_from)
  ultimately show ?thesis
    using run_found_tested [of isect s] by blast
qed

text \<open>
  C3 at three segments: the diagonals of a square and its lower side. All three pairs
  are tested, in order, and each meets.
\<close>

theorem enumeration_tests_each_pair_once_in_order_witness:
  "tested (run (segment_intersection 0)
      [Segment (Point 0 0) (Point 4 4), Segment (Point 0 4) (Point 4 0),
       Segment (Point 0 0) (Point 4 0)]) = [(0, 1), (0, 2), (1, 2)]
   \<and> length (tested (run (segment_intersection 0)
      [Segment (Point 0 0) (Point 4 4), Segment (Point 0 4) (Point 4 0),
       Segment (Point 0 0) (Point 4 0)])) = 3 * (3 - 1) div 2
   \<and> found (run (segment_intersection 0)
      [Segment (Point 0 0) (Point 4 4), Segment (Point 0 4) (Point 4 0),
       Segment (Point 0 0) (Point 4 0)])
     = [[PointResult (Point 2 2)], [PointResult (Point 0 0)], [PointResult (Point 4 0)]]"
proof -
  let ?s = "[Segment (Point 0 0) (Point 4 4), Segment (Point 0 4) (Point 4 0),
       Segment (Point 0 0) (Point 4 0)]"
  have t: "tested (run (segment_intersection 0) ?s) = [(0, 1), (0, 2), (1, 2)]"
    by code_simp
  have f: "found (run (segment_intersection 0) ?s)
     = [[PointResult (Point 2 2)], [PointResult (Point 0 0)], [PointResult (Point 4 0)]]"
    by code_simp
  from enumeration_tests_each_pair_once_in_order [of "segment_intersection 0" ?s]
  have "length (tested (run (segment_intersection 0) ?s)) = length ?s * (length ?s - 1) div 2"
    by blast
  then show ?thesis using t f by simp
qed

text \<open>
  C4. No pair \<open>(k, k)\<close> is passed to the predicate: every tested pair has its first
  index below its second; and every result in \<^verbatim>\<open>i\<close> is the result of a tested
  pair, none of them \<open>(k, k)\<close>.
\<close>

theorem no_segment_tested_against_itself:
  "(k, k) \<notin> set (tested (run isect s))
   \<and> (\<forall>ij \<in> set (tested (run isect s)). fst ij < snd ij)
   \<and> (\<exists>ps. found (run isect s) = map (result_at isect s) ps
          \<and> set ps \<subseteq> set (tested (run isect s)) \<and> (k, k) \<notin> set ps)"
proof -
  have 1: "(k, k) \<notin> set (tested (run isect s))"
    by (simp add: run_tested set_pairs_from)
  have 2: "\<forall>ij \<in> set (tested (run isect s)). fst ij < snd ij"
    by (auto simp: run_tested set_pairs_from)
  let ?ps = "filter (\<lambda>ij. result_at isect s ij \<noteq> []) (tested (run isect s))"
  have "found (run isect s) = map (result_at isect s) ?ps
          \<and> set ?ps \<subseteq> set (tested (run isect s)) \<and> (k, k) \<notin> set ?ps"
    using 1 run_found_tested [of isect s] by auto
  then have 3: "\<exists>ps. found (run isect s) = map (result_at isect s) ps
          \<and> set ps \<subseteq> set (tested (run isect s)) \<and> (k, k) \<notin> set ps"
    by blast
  show ?thesis using 1 2 3 by blast
qed

text \<open>C4 at two crossing segments: the only tested pair is \<open>(0, 1)\<close>.\<close>

theorem no_segment_tested_against_itself_witness:
  "(1, 1) \<notin> set (tested (run (segment_intersection 0)
      [Segment (Point 0 0) (Point 4 4), Segment (Point 0 4) (Point 4 0)]))
   \<and> tested (run (segment_intersection 0)
      [Segment (Point 0 0) (Point 4 4), Segment (Point 0 4) (Point 4 0)]) = [(0, 1)]
   \<and> fst (0::nat, 1::nat) < snd (0::nat, 1::nat)"
proof -
  let ?s = "[Segment (Point 0 0) (Point 4 4), Segment (Point 0 4) (Point 4 0)]"
  have t: "tested (run (segment_intersection 0) ?s) = [(0, 1)]"
    by code_simp
  from no_segment_tested_against_itself [of 1 "segment_intersection 0" ?s]
  have "(1, 1) \<notin> set (tested (run (segment_intersection 0) ?s))"
    and "\<forall>ij \<in> set (tested (run (segment_intersection 0) ?s)). fst ij < snd ij"
    by blast+
  then show ?thesis using t by simp
qed

text \<open>
  C5. One full pass over \<open>N\<close> segments leaves at most \<open>N (N - 1) / 2\<close> results in
  \<^verbatim>\<open>i\<close>.
\<close>

theorem result_count_bound:
  "length (found (run isect s)) \<le> length s * (length s - 1) div 2"
proof -
  have "length (found (run isect s)) \<le> length (pairs_from 0 (length s))"
    unfolding run_found by (rule order_trans [OF length_filter_le]) simp
  then show ?thesis by (simp add: length_pairs_from)
qed





text \<open>
  C1, as the loop has it. What is appended for a pair \<open>a < b\<close> whose intersection is
  not empty is the list the predicate returned, and nothing else: the elements of
  \<^verbatim>\<open>i\<close> are exactly the non-empty results of the pairs.
\<close>

theorem output_records_are_the_geometric_results:
  "set (found (run isect s)) =
     {isect (s ! a) (s ! b) | a b. a < b \<and> b < length s \<and> isect (s ! a) (s ! b) \<noteq> []}"
proof -
  have "set (found (run isect s)) =
      {p \<in> result_at isect s ` {(a, b). a < b \<and> b < length s}. p \<noteq> []}"
    by (simp add: run_found set_pairs_from)
  also have "\<dots> =
      {isect (s ! a) (s ! b) | a b. a < b \<and> b < length s \<and> isect (s ! a) (s ! b) \<noteq> []}"
    unfolding result_at_def by (rule set_eqI) (simp add: image_iff, force)
  finally show ?thesis .
qed

text \<open>
  C1 fails as stated. A crossing pair at indices \<open>(0, 1)\<close> of one store and the same
  two segments at indices \<open>(1, 2)\<close> of another leave the same record in \<^verbatim>\<open>i\<close>:
  the record holds the crossing point and no index pair.
\<close>

theorem output_records_carry_no_index_pair:
  "found (run (segment_intersection 0)
      [Segment (Point 0 0) (Point 4 4), Segment (Point 0 4) (Point 4 0),
       Segment (Point 10 10) (Point 11 10)]) = [[PointResult (Point 2 2)]]
   \<and> filter (\<lambda>ij. result_at (segment_intersection 0)
      [Segment (Point 0 0) (Point 4 4), Segment (Point 0 4) (Point 4 0),
       Segment (Point 10 10) (Point 11 10)] ij \<noteq> [])
      (tested (run (segment_intersection 0)
        [Segment (Point 0 0) (Point 4 4), Segment (Point 0 4) (Point 4 0),
         Segment (Point 10 10) (Point 11 10)])) = [(0, 1)]
   \<and> found (run (segment_intersection 0)
      [Segment (Point 10 10) (Point 11 10), Segment (Point 0 0) (Point 4 4),
       Segment (Point 0 4) (Point 4 0)]) = [[PointResult (Point 2 2)]]
   \<and> filter (\<lambda>ij. result_at (segment_intersection 0)
      [Segment (Point 10 10) (Point 11 10), Segment (Point 0 0) (Point 4 4),
       Segment (Point 0 4) (Point 4 0)] ij \<noteq> [])
      (tested (run (segment_intersection 0)
        [Segment (Point 10 10) (Point 11 10), Segment (Point 0 0) (Point 4 4),
         Segment (Point 0 4) (Point 4 0)])) = [(1, 2)]"
  by code_simp

subsection \<open>Building the segment list\<close>

lemma load_loop_Inr_iff:
  "load_loop mk rows s = Inr s' \<longleftrightarrow>
     (\<exists>t. s' = s @ t \<and> map (build mk) rows = map Inr t)"
proof (induction mk rows s rule: load_loop.induct)
  case (1 mk s)
  then show ?case by auto
next
  case (2 mk x1 y1 x2 y2 segments s)
  show ?case
  proof (cases "mk (Point x1 y1) (Point x2 y2)")
    case (Inl e)
    then show ?thesis by (auto simp: build_def)
  next
    case (Inr g)
    have "load_loop mk ((x1, y1, x2, y2) # segments) s = Inr s' \<longleftrightarrow>
        (\<exists>t. s' = (s @ [g]) @ t \<and> map (build mk) segments = map Inr t)"
      using 2 [OF Inr] Inr by simp
    also have "\<dots> \<longleftrightarrow>
        (\<exists>t. s' = s @ t \<and> map (build mk) ((x1, y1, x2, y2) # segments) = map Inr t)"
    proof
      assume "\<exists>t. s' = (s @ [g]) @ t \<and> map (build mk) segments = map Inr t"
      then obtain t where "s' = (s @ [g]) @ t" "map (build mk) segments = map Inr t" by blast
      then have "s' = s @ (g # t) \<and>
          map (build mk) ((x1, y1, x2, y2) # segments) = map Inr (g # t)"
        using Inr by (simp add: build_def)
      then show "\<exists>t. s' = s @ t \<and> map (build mk) ((x1, y1, x2, y2) # segments) = map Inr t"
        by blast
    next
      assume "\<exists>t. s' = s @ t \<and> map (build mk) ((x1, y1, x2, y2) # segments) = map Inr t"
      then obtain t where t: "s' = s @ t"
        "map (build mk) ((x1, y1, x2, y2) # segments) = map Inr t" by blast
      then obtain h t' where ht: "t = h # t'" by (cases t) auto
      with t Inr have "h = g" "map (build mk) segments = map Inr t'"
        by (auto simp: build_def)
      with t ht show "\<exists>t. s' = (s @ [g]) @ t \<and> map (build mk) segments = map Inr t"
        by auto
    qed
    finally show ?thesis .
  qed
qed

lemma first_failure_Cons_Inl:
  "build mk r = Inl e' \<Longrightarrow> first_failure mk (r # rows) k e \<longleftrightarrow> k = 0 \<and> e = e'"
  by (cases k) (auto simp: first_failure_def)

lemma first_failure_Cons_Inr:
  "build mk r = Inr g \<Longrightarrow>
     first_failure mk (r # rows) k e \<longleftrightarrow> (\<exists>k'. k = Suc k' \<and> first_failure mk rows k' e)"
proof (cases k)
  case 0
  assume "build mk r = Inr g"
  with 0 show ?thesis by (simp add: first_failure_def)
next
  case (Suc k')
  assume b: "build mk r = Inr g"
  have "(\<forall>j<Suc k'. \<exists>g. build mk ((r # rows) ! j) = Inr g)
      \<longleftrightarrow> (\<forall>j<k'. \<exists>g. build mk (rows ! j) = Inr g)"
  proof
    assume a: "\<forall>j<Suc k'. \<exists>g. build mk ((r # rows) ! j) = Inr g"
    show "\<forall>j<k'. \<exists>g. build mk (rows ! j) = Inr g"
    proof (intro allI impI)
      fix j assume "j < k'"
      then have "Suc j < Suc k'" by simp
      with a have "\<exists>g. build mk ((r # rows) ! Suc j) = Inr g" by blast
      then show "\<exists>g. build mk (rows ! j) = Inr g" by simp
    qed
  next
    assume a: "\<forall>j<k'. \<exists>g. build mk (rows ! j) = Inr g"
    show "\<forall>j<Suc k'. \<exists>g. build mk ((r # rows) ! j) = Inr g"
    proof (intro allI impI)
      fix j assume j: "j < Suc k'"
      show "\<exists>g. build mk ((r # rows) ! j) = Inr g"
        using j a b by (cases j) auto
    qed
  qed
  with Suc show ?thesis by (simp add: first_failure_def)
qed

lemma load_loop_Inl_iff:
  "load_loop mk rows s = Inl x \<longleftrightarrow> (\<exists>k e. x = Raised e \<and> first_failure mk rows k e)"
proof (induction mk rows s rule: load_loop.induct)
  case (1 mk s)
  then show ?case by (simp add: first_failure_def)
next
  case (2 mk x1 y1 x2 y2 segments s)
  show ?case
  proof (cases "mk (Point x1 y1) (Point x2 y2)")
    case (Inl e')
    then have b: "build mk (x1, y1, x2, y2) = Inl e'" by (simp add: build_def)
    show ?thesis using Inl by (auto simp: first_failure_Cons_Inl [OF b])
  next
    case (Inr g)
    then have b: "build mk (x1, y1, x2, y2) = Inr g" by (simp add: build_def)
    show ?thesis using 2 [OF Inr] Inr by (auto simp: first_failure_Cons_Inr [OF b])
  qed
qed

lemma loadtxt_cases:
  "(rows = [] \<and> loadtxt rows = Array1 [])
   \<or> (\<exists>x1 y1 x2 y2. rows = [(x1, y1, x2, y2)] \<and> loadtxt rows = Array1 [x1, y1, x2, y2])
   \<or> (2 \<le> length rows \<and> loadtxt rows = Array2 rows)"
proof (cases rows)
  case Nil
  then show ?thesis by simp
next
  case (Cons r rest)
  show ?thesis
  proof (cases rest)
    case Nil
    with Cons show ?thesis by (cases r) auto
  next
    case (Cons r' rest')
    with \<open>rows = r # rest\<close> show ?thesis by simp
  qed
qed

lemma load_Inr_iff:
  "load mk (loadtxt rows) = Inr s \<longleftrightarrow>
     (rows = [] \<and> s = []) \<or> (2 \<le> length rows \<and> map (build mk) rows = map Inr s)"
  using loadtxt_cases [of rows]
  by (elim disjE exE conjE) (auto simp: load_loop_Inr_iff)

lemma load_Inl_iff:
  "load mk (loadtxt rows) = Inl x \<longleftrightarrow>
     (length rows = 1 \<and> x = IndexError)
     \<or> (2 \<le> length rows \<and> (\<exists>k e. x = Raised e \<and> first_failure mk rows k e))"
  using loadtxt_cases [of rows]
  by (elim disjE exE conjE) (auto simp: load_loop_Inl_iff)

lemma build_sympy_Segment:
  "build sympy_Segment r =
     Inr (case r of (x1, y1, x2, y2) \<Rightarrow>
       if Point x1 y1 = Point x2 y2 then PointEntity (Point x1 y1)
       else SegmentEntity (Segment (Point x1 y1) (Point x2 y2)))"
  by (cases r) (simp add: build_def sympy_Segment_def)

text \<open>
  C2, as the script has it. Loading a file of two or more records fails exactly when
  the segment constructor raises on some record, with the constructor's exception at
  the first such record, and otherwise builds the list with one entry per record in
  file order; the loop checks nothing of its own. The library's constructor does not
  raise on equal endpoints, so with it every such file is loaded, a zero-length record
  as the point it names. A file of one record fails with \<open>IndexError\<close>, whatever the
  record, and an empty file gives the empty list.
\<close>

theorem load_rejects_no_zero_length_record:
  "(load mk (loadtxt rows) = Inr s \<longleftrightarrow>
      (rows = [] \<and> s = []) \<or> (2 \<le> length rows \<and> map (build mk) rows = map Inr s))
   \<and> (load mk (loadtxt rows) = Inl x \<longleftrightarrow>
      (length rows = 1 \<and> x = IndexError)
      \<or> (2 \<le> length rows \<and> (\<exists>k e. x = Raised e \<and> first_failure mk rows k e)))
   \<and> (2 \<le> length rows \<longrightarrow>
        load sympy_Segment (loadtxt rows) =
          Inr (map (\<lambda>(x1, y1, x2, y2).
                 if Point x1 y1 = Point x2 y2 then PointEntity (Point x1 y1)
                 else SegmentEntity (Segment (Point x1 y1) (Point x2 y2))) rows))"
proof -
  have 3: "2 \<le> length rows \<longrightarrow>
        load sympy_Segment (loadtxt rows) =
          Inr (map (\<lambda>(x1, y1, x2, y2).
                 if Point x1 y1 = Point x2 y2 then PointEntity (Point x1 y1)
                 else SegmentEntity (Segment (Point x1 y1) (Point x2 y2))) rows)"
    by (simp add: load_Inr_iff build_sympy_Segment o_def)
  show ?thesis using load_Inr_iff [of mk rows s] load_Inl_iff [of mk rows x] 3 by blast
qed

text \<open>
  C2 at a file of two records, the second of zero length: the library's constructor
  returns for both, and both are in the list; under a constructor that rejects equal
  endpoints the same file fails at row 1 with that constructor's exception.
\<close>

theorem load_rejects_no_zero_length_record_witness:
  "load sympy_Segment (loadtxt [(0, 0, 4, 0), (1, 1, 1, 1)])
       = Inr [SegmentEntity (Segment (Point 0 0) (Point 4 0)), PointEntity (Point 1 1)]
   \<and> load (\<lambda>p q. if p = q then Inl MalformedInputError else sympy_Segment p q)
         (loadtxt [(0, 0, 4, 0), (1, 1, 1, 1)]) = Inl (Raised MalformedInputError)
   \<and> first_failure (\<lambda>p q. if p = q then Inl MalformedInputError else sympy_Segment p q)
         [(0, 0, 4, 0), (1, 1, 1, 1)] 1 MalformedInputError"
proof -
  let ?strict = "\<lambda>p q. if p = q then Inl MalformedInputError else sympy_Segment p q"
  let ?rows = "[(0, 0, 4, 0), (1, 1, 1, 1)] :: row list"
  have len: "2 \<le> length ?rows" by simp
  from load_rejects_no_zero_length_record [of sympy_Segment ?rows] len
  have 1: "load sympy_Segment (loadtxt ?rows)
       = Inr [SegmentEntity (Segment (Point 0 0) (Point 4 0)), PointEntity (Point 1 1)]"
    by simp
  have ff: "first_failure ?strict ?rows 1 MalformedInputError"
    by (simp add: first_failure_def build_def sympy_Segment_def)
  from load_rejects_no_zero_length_record
    [of ?strict ?rows _ "Raised MalformedInputError"] len ff
  have 2: "load ?strict (loadtxt ?rows) = Inl (Raised MalformedInputError)"
    by blast
  show ?thesis using 1 2 ff by simp
qed

text \<open>
  C2 fails as stated. A file that holds the record \<open>(1,1,1,1)\<close> beside another is
  loaded, the record stored as the point \<open>(1,1)\<close>; a file that holds only that record
  fails, but with \<open>IndexError\<close>, as any one-record file does.
\<close>

theorem zero_length_record_is_not_rejected:
  "load sympy_Segment (loadtxt [(0, 0, 4, 0), (1, 1, 1, 1)])
       = Inr [SegmentEntity (Segment (Point 0 0) (Point 4 0)), PointEntity (Point 1 1)]
   \<and> load sympy_Segment (loadtxt [(1, 1, 1, 1)]) = Inl IndexError
   \<and> Inl IndexError \<noteq> (Inl (Raised MalformedInputError) :: error exn + entity list)"
  by (simp add: sympy_Segment_def)

subsection \<open>The predicate\<close>

text \<open>
  C9. For the collinear segments \<open>(0,0)-(4,0)\<close> and \<open>(2,0)-(6,0)\<close> the predicate
  yields an overlap whose sub-segment runs from \<open>(2,0)\<close> to \<open>(4,0)\<close>, whatever the
  epsilon.
\<close>

theorem collinear_overlap_example:
  "predicate eps (Segment (Point 0 0) (Point 4 0)) (Segment (Point 2 0) (Point 6 0))
     = Some (Overlap (Segment (Point 2 0) (Point 4 0)))"
  by (simp add: predicate_def classify_def orient_def cross_def collinear_overlap_def
      axis_def lower_end_def upper_end_def Let_def)

subsection \<open>The command line of visualize.py\<close>

text \<open>
  C10. The script raises the exception with message \<open>To many input arguments!\<close>
  exactly when more than two user arguments are given, and raises no other from the
  argument handling. With one user argument it takes the intersections from the
  library, run on the segments of that path; with two it reads them from the second
  path and does not call the library.
\<close>

theorem visualize_command_line:
  "(visualize argv = Inl ''To many input arguments!'' \<longleftrightarrow> 2 < length (tl argv))
   \<and> (\<forall>msg. visualize argv = Inl msg \<longrightarrow> msg = ''To many input arguments!'')
   \<and> (length (tl argv) = 1 \<longrightarrow>
        visualize argv = Inr (BentleyOttman (argv ! 1))
        \<and> (\<exists>c. parse_argv argv = Inr c \<and> use_library c \<and> segments_path c = argv ! 1))
   \<and> (length (tl argv) = 2 \<longrightarrow>
        visualize argv = Inr (LoadTxt (argv ! 2))
        \<and> (\<exists>c. parse_argv argv = Inr c \<and> \<not> use_library c \<and> segments_path c = argv ! 1
              \<and> intersections_path c = argv ! 2))"
proof -
  have 1: "visualize argv = Inl ''To many input arguments!'' \<longleftrightarrow> 2 < length (tl argv)"
    by (auto simp: visualize_def parse_argv_def)
  have 2: "\<forall>msg. visualize argv = Inl msg \<longrightarrow> msg = ''To many input arguments!''"
    by (auto simp: visualize_def parse_argv_def split: if_splits)
  have 3: "length (tl argv) = 1 \<longrightarrow>
        visualize argv = Inr (BentleyOttman (argv ! 1))
        \<and> (\<exists>c. parse_argv argv = Inr c \<and> use_library c \<and> segments_path c = argv ! 1)"
    by (auto simp: visualize_def parse_argv_def intersections_from_def defaults_def)
  have 4: "length (tl argv) = 2 \<longrightarrow>
        visualize argv = Inr (LoadTxt (argv ! 2))
        \<and> (\<exists>c. parse_argv argv = Inr c \<and> \<not> use_library c \<and> segments_path c = argv ! 1
              \<and> intersections_path c = argv ! 2)"
    by (auto simp: visualize_def parse_argv_def intersections_from_def defaults_def)
  show ?thesis using 1 2 3 4 by blast
qed

text \<open>C10 at one, two and three user arguments.\<close>

theorem visualize_command_line_witness:
  "visualize [''visualize.py'', ''s.dat''] = Inr (BentleyOttman ''s.dat'')
   \<and> visualize [''visualize.py'', ''s.dat'', ''i.dat''] = Inr (LoadTxt ''i.dat'')
   \<and> visualize [''visualize.py'', ''s.dat'', ''i.dat'', ''x''] = Inl ''To many input arguments!''"
proof -
  have a: "length (tl [''visualize.py'', ''s.dat'']) = 1" by simp
  have b: "length (tl [''visualize.py'', ''s.dat'', ''i.dat'']) = 2" by simp
  have c: "2 < length (tl [''visualize.py'', ''s.dat'', ''i.dat'', ''x''])" by simp
  from visualize_command_line [of "[''visualize.py'', ''s.dat'']"] a
  have 1: "visualize [''visualize.py'', ''s.dat'']
      = Inr (BentleyOttman ([''visualize.py'', ''s.dat''] ! 1))" by blast
  from visualize_command_line [of "[''visualize.py'', ''s.dat'', ''i.dat'']"] b
  have 2: "visualize [''visualize.py'', ''s.dat'', ''i.dat'']
      = Inr (LoadTxt ([''visualize.py'', ''s.dat'', ''i.dat''] ! 2))" by blast
  from visualize_command_line [of "[''visualize.py'', ''s.dat'', ''i.dat'', ''x'']"] c
  have 3: "visualize [''visualize.py'', ''s.dat'', ''i.dat'', ''x'']
      = Inl ''To many input arguments!''" by blast
  show ?thesis using 1 2 3 by simp
qed

end
